theory Spec2Isabelle
  imports Complex_Main "HOL-Library.Multiset"
begin

section \<open>Values\<close>

text \<open>
  The program is JavaScript. Its numbers are modelled as exact reals (rounding of IEEE
  doubles is not part of the model), and the non-numeric results that the statistics can
  produce are kept as values of their own: \<open>NaN\<close> (from \<open>0 / 0\<close> and from arithmetic
  on \<open>undefined\<close>), the two infinities (from \<open>x / 0\<close> and from \<open>Math.min()\<close>,
  \<open>Math.max()\<close> without arguments) and \<open>undefined\<close> (a read outside an array).
  A sample series handed to the statistics is a list of finite numbers.
\<close>

datatype jsval = Num real | NaN | Infinity | NegInfinity | Undefined

text \<open>\<open>values[i]\<close>: a read outside \<open>0 .. length - 1\<close> yields \<open>undefined\<close> (\<open>None\<close>).\<close>

definition element :: "real list \<Rightarrow> int \<Rightarrow> real option" where
  "element values i =
     (if 0 \<le> i \<and> i < int (length values) then Some (values ! nat i) else None)"

text \<open>
  \<open>a / b\<close> on finite numbers: \<open>0 / 0\<close> is \<open>NaN\<close>, any other division by zero is an
  infinity with the sign of the numerator (the divisors of this program are never \<open>-0\<close>).
\<close>

definition js_div :: "real \<Rightarrow> real \<Rightarrow> jsval" where
  "js_div a b =
     (if b \<noteq> 0 then Num (a / b)
      else if a = 0 then NaN
      else if 0 < a then Infinity
      else NegInfinity)"

text \<open>\<open>Math.min(...values)\<close> and \<open>Math.max(...values)\<close>.\<close>

fun math_min :: "real list \<Rightarrow> jsval" where
  "math_min [] = Infinity"
| "math_min (v # vs) = Num (fold min vs v)"

fun math_max :: "real list \<Rightarrow> jsval" where
  "math_max [] = NegInfinity"
| "math_max (v # vs) = Num (fold max vs v)"

section \<open>stats.js\<close>

text \<open>
  A function of \<open>stats.js\<close> that sorts its argument returns the array as the call leaves
  it together with its result: \<open>values.sort((a, b) => a - b)\<close> sorts the caller's array
  in place, in ascending numeric order.
\<close>

definition average :: "real list \<Rightarrow> jsval" where
  "average values =
     (let total = fold (\<lambda>v total. total + v) values 0
      in js_div total (real (length values)))"

definition median :: "real list \<Rightarrow> real list \<times> jsval" where
  "median values =
     (let half = \<lfloor>real (length values) / 2\<rfloor>;
          values = sort values
      in (values,
          if length values mod 2 \<noteq> 0 then
            (case element values half of Some m \<Rightarrow> Num m | None \<Rightarrow> Undefined)
          else
            (case (element values (half - 1), element values half) of
               (Some a, Some b) \<Rightarrow> Num ((a + b) / 2)
             | _ \<Rightarrow> NaN)))"

text \<open>
  \<open>quartile_run\<close> is \<open>quartile\<close> with the indices it reads from \<open>values\<close> recorded in
  the order of the reads: the test \<open>values[base + 1] !== undefined\<close> reads index
  \<open>base + 1\<close> first, the interpolation then reads \<open>base\<close>, \<open>base + 1\<close>, \<open>base\<close>, and
  the final \<open>return values[base]\<close> reads \<open>base\<close>. Arithmetic on \<open>undefined\<close> gives
  \<open>NaN\<close>.
\<close>

definition quartile_run :: "real list \<Rightarrow> real \<Rightarrow> real list \<times> int list \<times> jsval" where
  "quartile_run values percentile =
     (let values = sort values;
          pos = (real (length values) - 1) * percentile;
          base = \<lfloor>pos\<rfloor>;
          rest = pos - of_int base
      in case element values (base + 1) of
           Some hi \<Rightarrow>
             (values, [base + 1, base, base + 1, base],
              case element values base of
                Some lo \<Rightarrow> Num (lo + rest * (hi - lo))
              | None \<Rightarrow> NaN)
         | None \<Rightarrow>
             (values, [base + 1, base],
              case element values base of
                Some lo \<Rightarrow> Num lo
              | None \<Rightarrow> Undefined))"

definition quartile :: "real list \<Rightarrow> real \<Rightarrow> real list \<times> jsval" where
  "quartile values percentile =
     (case quartile_run values percentile of (values, reads, result) \<Rightarrow> (values, result))"

definition quartile_reads :: "real list \<Rightarrow> real \<Rightarrow> int list" where
  "quartile_reads values percentile =
     (case quartile_run values percentile of (values, reads, result) \<Rightarrow> reads)"

function jitters_loop :: "real list \<Rightarrow> nat \<Rightarrow> real list \<Rightarrow> real list" where
  "jitters_loop values i jitters =
     (if int i < int (length values) - 1
      then jitters_loop values (i + 1) (jitters @ [\<bar>values ! i - values ! (i + 1)\<bar>])
      else jitters)"
  by pat_completeness auto
termination
  by (relation "measure (\<lambda>(values, i, jitters). length values - i)") auto

declare jitters_loop.simps [simp del]

definition jitters :: "real list \<Rightarrow> real list" where
  "jitters values = jitters_loop values 0 []"

definition jitter :: "real list \<Rightarrow> jsval" where
  "jitter values = average (jitters values)"

definition jitterP90 :: "real list \<Rightarrow> real list \<times> jsval" where
  "jitterP90 values = (values, snd (quartile (jitters values) (90 / 100)))"

definition jitterP95 :: "real list \<Rightarrow> real list \<times> jsval" where
  "jitterP95 values = (values, snd (quartile (jitters values) (95 / 100)))"

definition p90 :: "real list \<Rightarrow> real list \<times> jsval" where
  "p90 values = quartile values (90 / 100)"

definition p95 :: "real list \<Rightarrow> real list \<times> jsval" where
  "p95 values = quartile values (95 / 100)"

text \<open>
  The module object \<open>stats\<close> that \<open>require('./stats.js')\<close> returns: the eight
  assignments to \<open>exports\<close>, by property name.
\<close>

datatype jsfun =
  Unary "real list \<Rightarrow> real list \<times> jsval"
| Binary "real list \<Rightarrow> real \<Rightarrow> real list \<times> jsval"

definition exports :: "(string \<times> jsfun) list" where
  "exports =
     [(''average'', Unary (\<lambda>values. (values, average values))),
      (''median'', Unary median),
      (''quartile'', Binary quartile),
      (''jitter'', Unary (\<lambda>values. (values, jitter values))),
      (''jitterP90'', Unary jitterP90),
      (''jitterP95'', Unary jitterP95),
      (''p90'', Unary p90),
      (''p95'', Unary p95)]"

section \<open>The measurement program\<close>

datatype error = TypeError string

text \<open>
  \<open>stats.name(values)\<close>: calling a property that the module does not have throws a
  \<open>TypeError\<close>. A two-parameter export called with the array alone gets \<open>undefined\<close>
  as its percentile: it sorts, the position is \<open>NaN\<close>, and both reads give \<open>undefined\<close>.
\<close>

definition call_stats :: "string \<Rightarrow> real list \<Rightarrow> error + real list \<times> jsval" where
  "call_stats name values =
     (case map_of exports name of
        None \<Rightarrow> Inl (TypeError (''stats.'' @ name @ '' is not a function''))
      | Some (Unary f) \<Rightarrow> Inr (f values)
      | Some (Binary f) \<Rightarrow> Inr (sort values, Undefined))"

definition and_then :: "error + 'a \<Rightarrow> ('a \<Rightarrow> error + 'b) \<Rightarrow> error + 'b" where
  "and_then r k = (case r of Inl e \<Rightarrow> Inl e | Inr v \<Rightarrow> k v)"

text \<open>
  Subtraction and division where an operand may be \<open>NaN\<close>, an infinity or \<open>undefined\<close>
  (which converts to \<open>NaN\<close>); on two finite numbers they are the operations on reals,
  with \<open>js_div\<close> for a zero divisor.
\<close>

fun js_minus :: "jsval \<Rightarrow> jsval \<Rightarrow> jsval" where
  "js_minus (Num a) (Num b) = Num (a - b)"
| "js_minus (Num a) Infinity = NegInfinity"
| "js_minus (Num a) NegInfinity = Infinity"
| "js_minus Infinity (Num b) = Infinity"
| "js_minus Infinity NegInfinity = Infinity"
| "js_minus NegInfinity (Num b) = NegInfinity"
| "js_minus NegInfinity Infinity = NegInfinity"
| "js_minus a b = NaN"

fun js_over :: "jsval \<Rightarrow> jsval \<Rightarrow> jsval" where
  "js_over (Num a) (Num b) = js_div a b"
| "js_over (Num a) Infinity = Num 0"
| "js_over (Num a) NegInfinity = Num 0"
| "js_over Infinity (Num b) = (if 0 \<le> b then Infinity else NegInfinity)"
| "js_over NegInfinity (Num b) = (if 0 \<le> b then NegInfinity else Infinity)"
| "js_over a b = NaN"

text \<open>
  The local variables of \<open>request\<close> as its listeners have left them when the response
  ends: \<open>started\<close> is taken when the promise is created, \<open>ttfb\<close> by the \<open>readable\<close>
  listener (the stream emits \<open>readable\<close> before \<open>end\<close>), \<open>ended\<close> by the \<open>end\<close>
  listener. The three socket timestamps stay \<open>undefined\<close> when their event did not fire.
\<close>

record times =
  started :: real
  dnsLookup :: "real option"
  tcpHandshake :: "real option"
  sslHandshake :: "real option"
  ttfb :: real
  ended :: real

text \<open>
  What \<open>request\<close> resolves with: the array \<open>[started, dnsLookup, tcpHandshake,
  sslHandshake, ttfb, ended, parseFloat(...)]\<close>, so \<open>response[0]\<close> is \<open>started\<close>,
  \<open>response[4]\<close> is \<open>ttfb\<close>, \<open>response[5]\<close> is \<open>ended\<close> and \<open>response[6]\<close> is what
  \<open>parseFloat\<close> makes of the \<open>server-timing\<close> header from its 22nd character on: a
  number, or \<open>NaN\<close> when no number starts there.
\<close>

record response = times +
  serverTiming :: jsval

text \<open>
  What becomes of the promise of one request: it is fulfilled with a response, it is
  rejected with an error (its text), it is never settled (there is no timeout, so
  \<open>await\<close> then never returns), or the listener that was to settle it throws. An
  exception thrown in a listener is caught by nobody: it ends the process.
\<close>

datatype 'a promise = Fulfilled 'a | Rejected string | Pending | Thrown error

text \<open>
  What the HTTPS client does with one request: the response ends, with or without a
  \<open>server-timing\<close> header (\<open>Some v\<close> when it has one, \<open>v\<close> being the value of
  \<open>parseFloat(res.headers['server-timing'].slice(22))\<close>); the request emits \<open>error\<close>;
  or neither event ever comes.
\<close>

datatype exchange = Ends times "jsval option" | Errors string | Silent

text \<open>
  \<open>request\<close>. Its \<open>end\<close> listener evaluates \<open>res.headers['server-timing'].slice(22)\<close>
  with no \<open>try\<close> around it: without the header this is \<open>undefined.slice\<close>, a
  \<open>TypeError\<close> thrown inside the listener, and \<open>resolve\<close> is not reached. Its \<open>error\<close>
  listener rejects. \<open>download(bytes)\<close> and \<open>upload(bytes)\<close> are \<open>request\<close> with their
  options.
\<close>

definition request :: "exchange \<Rightarrow> response promise" where
  "request exchange =
     (case exchange of
        Ends t header \<Rightarrow>
          (case header of
             None \<Rightarrow> Thrown (TypeError ''Cannot read properties of undefined (reading slice)'')
           | Some timing \<Rightarrow>
               Fulfilled \<lparr>started = started t, dnsLookup = dnsLookup t,
                 tcpHandshake = tcpHandshake t, sslHandshake = sslHandshake t,
                 ttfb = ttfb t, ended = ended t, serverTiming = timing\<rparr>)
      | Errors error \<Rightarrow> Rejected error
      | Silent \<Rightarrow> Pending)"

text \<open>
  How a driver ends: it returns its result, it waits for ever, or the process dies of an
  uncaught exception, with the lines printed until then.
\<close>

datatype 'a outcome = Returned 'a | Stalled | Died error "string list"

text \<open>
  The loop shared by the three drivers,
  \<^verbatim>\<open>for (let i = 0; i < iterations; i += 1) { await p.then(onFulfilled, onRejected); }\<close>
  where \<open>onFulfilled\<close> pushes one sample and \<open>onRejected\<close> prints \<open>Error: ...\<close>.
  \<open>requests i\<close> is what becomes of the promise of the request issued in iteration \<open>i\<close>;
  the state is the array \<open>measurements\<close> and the lines printed so far.
\<close>

function await_loop ::
  "nat \<Rightarrow> (nat \<Rightarrow> 'r promise) \<Rightarrow> ('r \<Rightarrow> 's) \<Rightarrow> nat \<Rightarrow> 's list \<Rightarrow> string list
     \<Rightarrow> ('s list \<times> string list) outcome" where
  "await_loop iterations requests sample i measurements console =
     (if i < iterations then
        (case requests i of
           Fulfilled response \<Rightarrow>
             await_loop iterations requests sample (i + 1)
               (measurements @ [sample response]) console
         | Rejected error \<Rightarrow>
             await_loop iterations requests sample (i + 1)
               measurements (console @ [''Error: '' @ error])
         | Pending \<Rightarrow> Stalled
         | Thrown exception \<Rightarrow> Died exception console)
      else Returned (measurements, console))"
  by pat_completeness auto
termination
  by (relation "measure (\<lambda>(iterations, requests, sample, i, measurements, console).
        iterations - i)") auto

declare await_loop.simps [simp del]

definition measureSpeed :: "real \<Rightarrow> jsval \<Rightarrow> jsval" where
  \<comment> \<open>\<open>(bytes * 8) / (duration / 1000) / 1e6\<close>\<close>
  "measureSpeed bytes duration =
     js_over (js_over (Num (bytes * 8)) (js_over duration (Num 1000))) (Num 1000000)"

text \<open>\<open>measureLatency\<close>, first its loop and then the array it returns.\<close>

definition latency_measurements ::
  "(nat \<Rightarrow> response promise) \<Rightarrow> (jsval list \<times> string list) outcome" where
  "latency_measurements download =
     await_loop 100 download
       (\<lambda>response. js_minus (Num (ttfb response - started response)) (serverTiming response))
       0 [] []"

text \<open>
  The elements of the returned array literal are evaluated from left to right on the one
  array \<open>measurements\<close>, which every call may have sorted for the next.
\<close>

definition latency_report :: "real list \<Rightarrow> error + jsval list" where
  "latency_report measurements =
     (let e0 = math_min measurements;
          e1 = math_max measurements
      in and_then (call_stats ''average'' measurements) (\<lambda>(measurements, e2).
         and_then (call_stats ''median'' measurements) (\<lambda>(measurements, e3).
         and_then (call_stats ''jitter'' measurements) (\<lambda>(measurements, e4).
         and_then (call_stats ''jitterP95'' measurements) (\<lambda>(measurements, e5).
         and_then (call_stats ''jitterP99'' measurements) (\<lambda>(measurements, e6).
         and_then (call_stats ''p95'' measurements) (\<lambda>(measurements, e7).
         and_then (call_stats ''p99'' measurements) (\<lambda>(measurements, e8).
         Inr [e0, e1, e2, e3, e4, e5, e6, e7, e8]))))))))"

text \<open>The series as a list of finite numbers, when every sample is one.\<close>

fun finite_series :: "jsval list \<Rightarrow> real list option" where
  "finite_series [] = Some []"
| "finite_series (Num x # vs) = map_option ((#) x) (finite_series vs)"
| "finite_series (v # vs) = None"

text \<open>
  The statistics are modelled on series of finite numbers. On a series with a sample that
  is not one (a \<open>NaN\<close> from a header that does not parse), the comparator of \<open>sort\<close>
  returns \<open>NaN\<close> and the order \<open>sort\<close> leaves is up to the implementation, so the values
  of the first entries are not modelled; but none of the calls before
  \<open>stats.jitterP99\<close> throws, whatever the array holds, and that call throws as it does on
  finite numbers.
\<close>

definition measureLatency ::
  "(nat \<Rightarrow> response promise) \<Rightarrow> ((error + jsval list) \<times> string list) outcome" where
  "measureLatency download =
     (case latency_measurements download of
        Returned (measurements, console) \<Rightarrow>
          (case finite_series measurements of
             Some series \<Rightarrow> Returned (latency_report series, console)
           | None \<Rightarrow>
               Returned (Inl (TypeError ''stats.jitterP99 is not a function''), console))
      | Stalled \<Rightarrow> Stalled
      | Died exception console \<Rightarrow> Died exception console)"

definition measureDownload ::
  "real \<Rightarrow> nat \<Rightarrow> (nat \<Rightarrow> response promise) \<Rightarrow> (jsval list \<times> string list) outcome" where
  "measureDownload bytes iterations download =
     await_loop iterations download
       (\<lambda>response. let transferTime = Num (ended response - ttfb response)
                    in measureSpeed bytes transferTime) 0 [] []"

definition measureUpload ::
  "real \<Rightarrow> nat \<Rightarrow> (nat \<Rightarrow> response promise) \<Rightarrow> (jsval list \<times> string list) outcome" where
  "measureUpload bytes iterations upload =
     await_loop iterations upload
       (\<lambda>response. let transferTime = serverTiming response
                    in measureSpeed bytes transferTime) 0 [] []"

section \<open>Vocabulary of the statements\<close>

text \<open>
  A settled promise is fulfilled or rejected; the responses of the fulfilled requests and
  the errors of the rejected ones, in order.
\<close>

definition settled :: "'a promise \<Rightarrow> bool" where
  "settled p =
     (case p of Fulfilled r \<Rightarrow> True | Rejected e \<Rightarrow> True | Pending \<Rightarrow> False | Thrown e \<Rightarrow> False)"

fun fulfilled :: "'a promise list \<Rightarrow> 'a list" where
  "fulfilled [] = []"
| "fulfilled (Fulfilled r # ps) = r # fulfilled ps"
| "fulfilled (p # ps) = fulfilled ps"

fun rejected :: "'a promise list \<Rightarrow> string list" where
  "rejected [] = []"
| "rejected (Rejected e # ps) = e # rejected ps"
| "rejected (p # ps) = rejected ps"

text \<open>
  Inputs of the examples: an exchange with a time to first byte of 52 ms, of which the
  server reports 2 ms, and the response \<open>request\<close> makes of it; ten requests of which the
  third, sixth and eighth are rejected; ten exchanges of which the third comes without a
  \<open>server-timing\<close> header; ten of which the third has a header that does not parse.
\<close>

definition sample_times :: times where
  "sample_times =
     \<lparr>started = 0, dnsLookup = Some 10, tcpHandshake = Some 20, sslHandshake = Some 30,
      ttfb = 52, ended = 60\<rparr>"

definition sample_response :: response where
  "sample_response =
     \<lparr>started = 0, dnsLookup = Some 10, tcpHandshake = Some 20, sslHandshake = Some 30,
      ttfb = 52, ended = 60, serverTiming = Num 2\<rparr>"

definition flaky :: "nat \<Rightarrow> response promise" where
  "flaky i =
     (if i = 2 \<or> i = 5 \<or> i = 7 then Rejected ''ECONNRESET'' else Fulfilled sample_response)"

definition headerless :: "nat \<Rightarrow> exchange" where
  "headerless i = (if i = 2 then Ends sample_times None else Ends sample_times (Some (Num 2)))"

definition garbled :: "nat \<Rightarrow> exchange" where
  "garbled i =
     (if i = 2 then Ends sample_times (Some NaN) else Ends sample_times (Some (Num 2)))"

section \<open>Facts about the statistics\<close>

lemma floor_half: "\<lfloor>real n / 2\<rfloor> = int (n div 2)"
  using floor_divide_of_nat_eq [of n 2, where ?'a = real] by simp

lemma median_array: "fst (median values) = sort values"
  by (simp add: median_def Let_def)

lemma quartile_array: "fst (quartile values percentile) = sort values"
  by (simp add: quartile_def quartile_run_def Let_def split: option.split)

lemma fold_add: "fold (\<lambda>v total. total + v) xs (a::real) = a + sum_list xs"
  by (induction xs arbitrary: a) simp_all

lemma average_eq: "average values = js_div (sum_list values) (real (length values))"
  by (simp add: average_def fold_add)

lemma jitters_loop_eq:
  "jitters_loop xs i acc =
     acc @ map (\<lambda>k. \<bar>xs ! k - xs ! (k + 1)\<bar>) [i..<length xs - 1]"
proof (induction xs i acc rule: jitters_loop.induct)
  case (1 xs i acc)
  show ?case
  proof (cases "int i < int (length xs) - 1")
    case True
    then have lt: "i < length xs - 1" by linarith
    have "jitters_loop xs i acc =
            jitters_loop xs (i + 1) (acc @ [\<bar>xs ! i - xs ! (i + 1)\<bar>])"
      using True by (subst jitters_loop.simps) simp
    also have "\<dots> = (acc @ [\<bar>xs ! i - xs ! (i + 1)\<bar>]) @
            map (\<lambda>k. \<bar>xs ! k - xs ! (k + 1)\<bar>) [i + 1..<length xs - 1]"
      using "1.IH" [OF True] .
    finally show ?thesis
      using lt by (simp add: upt_conv_Cons)
  next
    case False
    then have "length xs - 1 \<le> i" by linarith
    then show ?thesis
      using False by (subst jitters_loop.simps) simp
  qed
qed

lemma jitters_eq:
  "jitters values = map (\<lambda>k. \<bar>values ! k - values ! (k + 1)\<bar>) [0..<length values - 1]"
  by (simp add: jitters_def jitters_loop_eq)

lemma jitter_eq:
  "jitter values =
     js_div (\<Sum>k<length values - 1. \<bar>values ! k - values ! (k + 1)\<bar>)
       (real (length values - 1))"
  by (simp add: jitter_def average_eq jitters_eq interv_sum_list_conv_sum_set_nat atLeast0LessThan)

lemma element_Some: "0 \<le> i \<Longrightarrow> i < int (length xs) \<Longrightarrow> element xs i = Some (xs ! nat i)"
  by (simp add: element_def)

lemma element_None: "i < 0 \<or> int (length xs) \<le> i \<Longrightarrow> element xs i = None"
  by (auto simp add: element_def)

lemma base_range:
  assumes "xs \<noteq> []" "0 \<le> q" "q \<le> 1"
  shows "0 \<le> \<lfloor>(real (length xs) - 1) * q\<rfloor> \<and> \<lfloor>(real (length xs) - 1) * q\<rfloor> \<le> int (length xs) - 1"
proof -
  have n: "1 \<le> real (length xs)" using assms(1) by (cases xs) simp_all
  have lo: "0 \<le> (real (length xs) - 1) * q" using n assms(2) by simp
  have "(real (length xs) - 1) * q \<le> (real (length xs) - 1) * 1"
    using n assms(3) by (intro mult_left_mono) simp_all
  then have hi: "(real (length xs) - 1) * q \<le> real_of_int (int (length xs) - 1)" by simp
  from lo have "0 \<le> \<lfloor>(real (length xs) - 1) * q\<rfloor>" by simp
  moreover from hi have "\<lfloor>(real (length xs) - 1) * q\<rfloor> \<le> int (length xs) - 1"
    using floor_mono [OF hi] by simp
  ultimately show ?thesis by simp
qed


lemma sorted_first_Min:
  fixes xs :: "real list"
  assumes "sorted xs" "xs \<noteq> []"
  shows "xs ! 0 = Min (set xs)"
proof -
  have "\<And>y. y \<in> set xs \<Longrightarrow> xs ! 0 \<le> y"
  proof -
    fix y assume "y \<in> set xs"
    then obtain k where "k < length xs" "y = xs ! k" by (auto simp add: in_set_conv_nth)
    then show "xs ! 0 \<le> y" using sorted_nth_mono [OF assms(1), of 0 k] by simp
  qed
  moreover have "xs ! 0 \<in> set xs" using assms(2) by simp
  ultimately have "Min (set xs) = xs ! 0" by (intro Min_eqI) simp_all
  then show ?thesis by simp
qed

lemma sorted_last_Max:
  fixes xs :: "real list"
  assumes "sorted xs" "xs \<noteq> []"
  shows "xs ! (length xs - 1) = Max (set xs)"
proof -
  have "\<And>y. y \<in> set xs \<Longrightarrow> y \<le> xs ! (length xs - 1)"
  proof -
    fix y assume "y \<in> set xs"
    then obtain k where "k < length xs" "y = xs ! k" by (auto simp add: in_set_conv_nth)
    then show "y \<le> xs ! (length xs - 1)"
      using sorted_nth_mono [OF assms(1), of k "length xs - 1"] by simp
  qed
  moreover have "xs ! (length xs - 1) \<in> set xs" using assms(2) by simp
  ultimately have "Max (set xs) = xs ! (length xs - 1)" by (intro Max_eqI) simp_all
  then show ?thesis by simp
qed

lemma quartile_result:
  assumes "xs \<noteq> []" "0 \<le> q" "q \<le> 1"
  shows "snd (quartile xs q) =
     (let sorted_xs = sort xs;
          n = length xs;
          pos = (real n - 1) * q;
          base = \<lfloor>pos\<rfloor>;
          frac = pos - of_int base
      in if base = int n - 1 then Num (sorted_xs ! nat base)
         else Num (sorted_xs ! nat base +
                   frac * (sorted_xs ! nat (base + 1) - sorted_xs ! nat base)))"
proof -
  define base where "base = \<lfloor>(real (length xs) - 1) * q\<rfloor>"
  have range: "0 \<le> base" "base \<le> int (length xs) - 1"
    using base_range [OF assms] by (simp_all add: base_def)
  have lo: "element (sort xs) base = Some (sort xs ! nat base)"
    using range by (simp add: element_Some)
  show ?thesis
  proof (cases "base = int (length xs) - 1")
    case True
    then have "element (sort xs) (base + 1) = None" by (simp add: element_None)
    with lo True show ?thesis
      by (simp add: quartile_def quartile_run_def Let_def base_def [symmetric])
  next
    case False
    then have "element (sort xs) (base + 1) = Some (sort xs ! nat (base + 1))"
      using range by (simp add: element_Some)
    with lo False show ?thesis
      by (simp add: quartile_def quartile_run_def Let_def base_def [symmetric])
  qed
qed

lemma quartile_0:
  assumes "xs \<noteq> []"
  shows "snd (quartile xs 0) = Num (Min (set xs))"
proof -
  have "sort xs \<noteq> []" using assms by (metis length_0_conv length_sort)
  then have "sort xs ! 0 = Min (set xs)"
    using sorted_first_Min [of "sort xs"] by simp
  then show ?thesis
    using assms
    by (simp add: quartile_def quartile_run_def Let_def element_def split: option.split)
qed

lemma quartile_1_run:
  assumes "xs \<noteq> []"
  shows "quartile_run xs 1 =
     (sort xs, [int (length xs), int (length xs) - 1], Num (Max (set xs)))"
proof -
  have n: "1 \<le> length xs" using assms by (cases xs) simp_all
  have ne: "sort xs \<noteq> []" using assms by (metis length_0_conv length_sort)
  then have last: "sort xs ! (length xs - 1) = Max (set xs)"
    using sorted_last_Max [of "sort xs"] by simp
  have base: "\<lfloor>real (length xs) - 1\<rfloor> = int (length xs) - 1"
    using n by (simp add: of_nat_diff [symmetric] del: of_nat_diff)
  have "nat (int (length xs) - 1) = length xs - 1" by simp
  then show ?thesis
    using n ne last by (simp add: quartile_run_def Let_def base element_def)
qed

lemma median_result:
  assumes "xs \<noteq> []"
  shows "snd (median xs) =
     (if odd (length xs) then Num (sort xs ! (length xs div 2))
      else Num ((sort xs ! (length xs div 2 - 1) + sort xs ! (length xs div 2)) / 2))"
proof (cases "odd (length xs)")
  case True
  then have "length xs div 2 < length xs" by (cases xs) simp_all
  then have "element (sort xs) (int (length xs div 2)) = Some (sort xs ! (length xs div 2))"
    by (simp add: element_def)
  with True show ?thesis
    by (simp add: median_def Let_def floor_half odd_iff_mod_2_eq_one)
next
  case False
  then have "length xs \<noteq> 1" by auto
  moreover have "0 < length xs" using assms by simp
  ultimately have "2 \<le> length xs" by linarith
  then have h: "1 \<le> length xs div 2" "length xs div 2 < length xs" by simp_all
  have a: "element (sort xs) (int (length xs div 2) - 1) = Some (sort xs ! (length xs div 2 - 1))"
    using h by (simp add: element_def nat_diff_distrib')
  have b: "element (sort xs) (int (length xs div 2)) = Some (sort xs ! (length xs div 2))"
    using h by (simp add: element_def)
  from False a b show ?thesis
    by (simp add: median_def Let_def floor_half)
qed

lemma median_permutation:
  "mset ys = mset xs \<Longrightarrow> median ys = median xs"
proof -
  assume m: "mset ys = mset xs"
  then have "sort ys = sort xs"
    by (intro properties_for_sort) simp_all
  moreover have "length ys = length xs" using m by (rule mset_eq_length)
  ultimately show ?thesis by (simp add: median_def Let_def)
qed

lemma median_replicate:
  assumes "0 < n"
  shows "snd (median (replicate n c)) = Num c"
proof -
  have idx: "n div 2 < n" "n div 2 - 1 < n" using assms by simp_all
  have "replicate n c \<noteq> []" using assms by simp
  from median_result [OF this] idx show ?thesis by (simp add: sort_replicate)
qed

lemma jitter_replicate: "2 \<le> n \<Longrightarrow> jitter (replicate n c) = Num 0"
  by (simp add: jitter_eq js_div_def)

section \<open>Facts about the driver loop\<close>

lemma await_loop_settled:
  "(\<And>k. i \<le> k \<Longrightarrow> k < n \<Longrightarrow> settled (requests k)) \<Longrightarrow>
   await_loop n requests sample i ms out =
     Returned (ms @ map sample (fulfilled (map requests [i..<n])),
               out @ map (\<lambda>e. ''Error: '' @ e) (rejected (map requests [i..<n])))"
proof (induction n requests sample i ms out rule: await_loop.induct)
  case (1 n requests sample i ms out)
  show ?case
  proof (cases "i < n")
    case False
    then show ?thesis by (subst await_loop.simps) simp
  next
    case True
    have later: "\<And>k. i + 1 \<le> k \<Longrightarrow> k < n \<Longrightarrow> settled (requests k)"
      using "1.prems" by simp
    have here: "settled (requests i)" using "1.prems" [of i] True by simp
    show ?thesis
    proof (cases "requests i")
      case (Fulfilled r)
      show ?thesis
        using True Fulfilled "1.IH"(1) [OF True Fulfilled later]
        by (subst await_loop.simps) (simp add: upt_conv_Cons)
    next
      case (Rejected e)
      show ?thesis
        using True Rejected "1.IH"(2) [OF True Rejected later]
        by (subst await_loop.simps) (simp add: upt_conv_Cons)
    next
      case Pending
      with here show ?thesis by (simp add: settled_def)
    next
      case (Thrown e)
      with here show ?thesis by (simp add: settled_def)
    qed
  qed
qed

lemma settled_count:
  "\<forall>p\<in>set ps. settled p \<Longrightarrow> length (fulfilled ps) + length (rejected ps) = length ps"
proof (induction ps)
  case Nil
  then show ?case by simp
next
  case (Cons p ps)
  have "settled p" using Cons.prems by simp
  moreover have "length (fulfilled ps) + length (rejected ps) = length ps"
    using Cons.IH Cons.prems by simp
  ultimately show ?case by (cases p) (simp_all add: settled_def)
qed

lemma fulfilled_append: "fulfilled (ps @ qs) = fulfilled ps @ fulfilled qs"
  by (induction ps rule: fulfilled.induct) simp_all

lemma rejected_append: "rejected (ps @ qs) = rejected ps @ rejected qs"
  by (induction ps rule: rejected.induct) simp_all

lemma all_fulfilled:
  "(\<And>i. i < n \<Longrightarrow> \<exists>r. requests i = Fulfilled r \<and> sample r = c) \<Longrightarrow>
   map sample (fulfilled (map requests [0..<n])) = replicate n c \<and>
   rejected (map requests [0..<n]) = []"
proof (induction n)
  case 0
  show ?case by simp
next
  case (Suc n)
  obtain r where r: "requests n = Fulfilled r" "sample r = c"
    using Suc.prems [of n] by auto
  have "map sample (fulfilled (map requests [0..<n])) = replicate n c \<and>
        rejected (map requests [0..<n]) = []"
    using Suc.IH Suc.prems by simp
  with r show ?case
    by (simp add: fulfilled_append rejected_append replicate_append_same)
qed

lemma driver_result:
  assumes "\<forall>i<n. settled (requests i)"
  shows "await_loop n requests sample 0 [] [] =
     Returned (map sample (fulfilled (map requests [0..<n])),
               map (\<lambda>e. ''Error: '' @ e) (rejected (map requests [0..<n])))"
  using await_loop_settled [of 0 n requests sample "[]" "[]"] assms by simp

text \<open>
  The first request that is not settled decides how the driver ends: it waits for ever on
  one that never settles, and the process dies on one whose listener throws, with only the
  lines of the rejections before it printed.
\<close>

lemma await_loop_pending:
  assumes "i \<le> k" and "k < n" and "requests k = Pending"
    and "\<And>j. i \<le> j \<Longrightarrow> j < k \<Longrightarrow> settled (requests j)"
  shows "await_loop n requests sample i ms out = Stalled"
  using assms
proof (induction n requests sample i ms out rule: await_loop.induct)
  case (1 n requests sample i ms out)
  have lt: "i < n" using "1.prems" by simp
  show ?case
  proof (cases "i = k")
    case True
    with lt "1.prems" show ?thesis by (subst await_loop.simps) simp
  next
    case False
    then have next_le: "i + 1 \<le> k" and ik: "i < k" using "1.prems" by simp_all
    have here: "settled (requests i)" using "1.prems"(4) [of i] ik by simp
    have later: "\<And>j. i + 1 \<le> j \<Longrightarrow> j < k \<Longrightarrow> settled (requests j)"
      using "1.prems"(4) by simp
    show ?thesis
    proof (cases "requests i")
      case (Fulfilled r)
      with lt "1.IH"(1) [OF lt Fulfilled next_le "1.prems"(2,3) later] show ?thesis
        by (subst await_loop.simps) simp
    next
      case (Rejected e)
      with lt "1.IH"(2) [OF lt Rejected next_le "1.prems"(2,3) later] show ?thesis
        by (subst await_loop.simps) simp
    next
      case Pending
      with here show ?thesis by (simp add: settled_def)
    next
      case (Thrown e)
      with here show ?thesis by (simp add: settled_def)
    qed
  qed
qed

lemma await_loop_thrown:
  assumes "i \<le> k" and "k < n" and "requests k = Thrown x"
    and "\<And>j. i \<le> j \<Longrightarrow> j < k \<Longrightarrow> settled (requests j)"
  shows "await_loop n requests sample i ms out =
     Died x (out @ map (\<lambda>e. ''Error: '' @ e) (rejected (map requests [i..<k])))"
  using assms
proof (induction n requests sample i ms out rule: await_loop.induct)
  case (1 n requests sample i ms out)
  have lt: "i < n" using "1.prems" by simp
  show ?case
  proof (cases "i = k")
    case True
    with lt "1.prems" show ?thesis by (subst await_loop.simps) simp
  next
    case False
    then have next_le: "i + 1 \<le> k" and ik: "i < k" using "1.prems" by simp_all
    have here: "settled (requests i)" using "1.prems"(4) [of i] ik by simp
    have later: "\<And>j. i + 1 \<le> j \<Longrightarrow> j < k \<Longrightarrow> settled (requests j)"
      using "1.prems"(4) by simp
    show ?thesis
    proof (cases "requests i")
      case (Fulfilled r)
      with lt ik "1.IH"(1) [OF lt Fulfilled next_le "1.prems"(2,3) later] show ?thesis
        by (subst await_loop.simps) (simp add: upt_conv_Cons)
    next
      case (Rejected e)
      with lt ik "1.IH"(2) [OF lt Rejected next_le "1.prems"(2,3) later] show ?thesis
        by (subst await_loop.simps) (simp add: upt_conv_Cons)
    next
      case Pending
      with here show ?thesis by (simp add: settled_def)
    next
      case (Thrown e)
      with here show ?thesis by (simp add: settled_def)
    qed
  qed
qed

lemma measureSpeed_formula:
  "duration \<noteq> 0 \<Longrightarrow>
   measureSpeed bytes (Num duration) = Num (bytes * 8 / (duration / 1000) / 1000000)"
  by (simp add: measureSpeed_def js_div_def)

lemma measureSpeed_NaN: "measureSpeed bytes NaN = NaN"
  by (simp add: measureSpeed_def)

lemma latency_report_throws:
  "latency_report ms = Inl (TypeError ''stats.jitterP99 is not a function'')"
  by (simp add: latency_report_def and_then_def call_stats_def exports_def Let_def
      jitterP95_def split: prod.split)

lemma finite_series_replicate: "finite_series (replicate n (Num c)) = Some (replicate n c)"
  by (induction n) simp_all

lemma request_sample: "request (Ends sample_times (Some (Num 2))) = Fulfilled sample_response"
  by (simp add: request_def sample_times_def sample_response_def)

section \<open>The latency report\<close>

text \<open>
  C1 (the code departs from the claim). \<open>measureLatency\<close> does not return a report.
  The array it returns calls \<open>stats.jitterP99\<close> and \<open>stats.p99\<close>, and \<open>stats.js\<close>
  exports \<open>jitterP90\<close>, \<open>jitterP95\<close>, \<open>p90\<close> and \<open>p95\<close> only: whatever the
  samples are, evaluating the array throws a \<open>TypeError\<close> at \<open>stats.jitterP99\<close>, after
  the minimum, the maximum, the mean, the median, the jitter and its 95th percentile have
  been computed. So it is for one hundred successful requests.
\<close>

theorem measureLatency_throws:
  "latency_report measurements = Inl (TypeError ''stats.jitterP99 is not a function'') \<and>
   measureLatency (\<lambda>i. Fulfilled sample_response) =
     Returned (Inl (TypeError ''stats.jitterP99 is not a function''), [])"
proof -
  let ?net = "\<lambda>i::nat. Fulfilled sample_response"
  let ?latency = "\<lambda>r. js_minus (Num (ttfb r - started r)) (serverTiming r)"
  have all: "\<forall>i<100. settled (?net i)" by (simp add: settled_def)
  have "map ?latency (fulfilled (map ?net [0..<100])) = replicate 100 (Num 50) \<and>
        rejected (map ?net [0..<100]) = []"
    using all_fulfilled [of 100 ?net ?latency "Num 50"] by (simp add: sample_response_def)
  then have "latency_measurements ?net = Returned (replicate 100 (Num 50), [])"
    unfolding latency_measurements_def using driver_result [OF all, of ?latency] by simp
  then show ?thesis
    by (simp add: measureLatency_def latency_report_throws finite_series_replicate)
qed

text \<open>
  C7. Each fulfilled request of the latency loop contributes the sample
  \<open>ttfb - started - serverTiming\<close> (\<open>response[4] - response[0] - response[6]\<close>), in the
  order of the requests; on finite numbers the subtraction is that of the reals. When each of the hundred requests is fulfilled with a server time
  of 2 ms and a time to first byte of 52 ms, the series is a hundred times 50, its median
  is 50, and its jitter is 0, computed as the program does after the median has sorted the
  series as well as before.
\<close>

theorem latency_sample_formula:
  assumes "\<forall>i<100. settled (download i)"
    and "\<forall>i<100. \<exists>r. uniform i = Fulfilled r \<and> serverTiming r = Num 2 \<and>
           ttfb r - started r = 52"
  shows "latency_measurements download =
           Returned (map (\<lambda>r. js_minus (Num (ttfb r - started r)) (serverTiming r))
                       (fulfilled (map download [0..<100])),
                     map (\<lambda>e. ''Error: '' @ e) (rejected (map download [0..<100]))) \<and>
         js_minus (Num (first_byte - start)) (Num server_time) =
           Num (first_byte - start - server_time) \<and>
         latency_measurements uniform = Returned (replicate 100 (Num 50), []) \<and>
         finite_series (replicate 100 (Num 50)) = Some (replicate 100 50) \<and>
         snd (median (replicate 100 50)) = Num 50 \<and>
         jitter (fst (median (replicate 100 50))) = Num 0 \<and>
         jitter (replicate 100 50) = Num 0"
proof -
  let ?latency = "\<lambda>r. js_minus (Num (ttfb r - started r)) (serverTiming r)"
  have first: "latency_measurements download =
      Returned (map ?latency (fulfilled (map download [0..<100])),
                map (\<lambda>e. ''Error: '' @ e) (rejected (map download [0..<100])))"
    unfolding latency_measurements_def using driver_result [OF assms(1), of ?latency] .
  have each: "\<And>i. i < 100 \<Longrightarrow> \<exists>r. uniform i = Fulfilled r \<and> ?latency r = Num 50"
  proof -
    fix i :: nat assume "i < 100"
    then obtain r where "uniform i = Fulfilled r" "serverTiming r = Num 2"
        "ttfb r - started r = 52"
      using assms(2) by blast
    then show "\<exists>r. uniform i = Fulfilled r \<and> ?latency r = Num 50" by simp
  qed
  have all: "\<forall>i<100. settled (uniform i)" using each by (fastforce simp add: settled_def)
  have second: "latency_measurements uniform = Returned (replicate 100 (Num 50), [])"
    unfolding latency_measurements_def
    using driver_result [OF all, of ?latency] all_fulfilled [of 100 uniform ?latency "Num 50"]
      each
    by simp
  have "snd (median (replicate 100 50)) = Num 50" by (simp add: median_replicate)
  moreover have "jitter (fst (median (replicate 100 50))) = Num 0"
    by (simp add: median_array jitter_replicate)
  moreover have "jitter (replicate 100 50) = Num 0" by (simp add: jitter_replicate)
  ultimately show ?thesis using first second by (simp add: finite_series_replicate)
qed

theorem latency_sample_formula_witness:
  "latency_measurements flaky =
     Returned (map (\<lambda>r. js_minus (Num (ttfb r - started r)) (serverTiming r))
                 (fulfilled (map flaky [0..<100])),
               map (\<lambda>e. ''Error: '' @ e) (rejected (map flaky [0..<100]))) \<and>
   latency_measurements (\<lambda>i. Fulfilled sample_response) = Returned (replicate 100 (Num 50), []) \<and>
   snd (median (replicate 100 50)) = Num 50 \<and>
   jitter (fst (median (replicate 100 50))) = Num 0"
  using latency_sample_formula [of flaky "\<lambda>i. Fulfilled sample_response"]
  by (simp add: flaky_def sample_response_def settled_def)

section \<open>Jitter\<close>

text \<open>
  C2 (the code departs from the claim). The jitter of a series is not the same before and
  after \<open>median\<close> or \<open>quartile\<close> has been called on it: both sort the caller's array,
  and \<open>measureLatency\<close> calls \<open>stats.median(measurements)\<close> before
  \<open>stats.jitter(measurements)\<close>. For the series 1, 3, 2 the jitter is 3/2 in collection
  order and 1 on the array either call leaves behind.
\<close>

theorem jitter_changes_after_sort:
  "jitter [1, 3, 2] = Num (3 / 2) \<and>
   jitter (fst (median [1, 3, 2])) = Num 1 \<and>
   jitter (fst (quartile [1, 3, 2] (9 / 10))) = Num 1"
  by (simp add: median_array quartile_array jitter_eq js_div_def lessThan_Suc
      numeral_2_eq_2 numeral_3_eq_3)

text \<open>
  C3, as stated, fails: the jitter of a single sample is \<open>NaN\<close>, not 0. There are no
  consecutive pairs, and \<open>average\<close> of the empty array divides 0 by 0.
\<close>

theorem jitter_single_sample_NaN:
  "jitter [1] = NaN \<and> jitter [1] \<noteq> Num 0 \<and> jitter [] = NaN"
  by (simp add: jitter_eq js_div_def)

text \<open>
  C3, amended. For a series of at least two samples \<open>jitter\<close> is the arithmetic mean
  of \<open>|xs[i] - xs[i+1]|\<close> over the consecutive indices in collection order; for a series
  of fewer than two samples it is \<open>NaN\<close>. In particular the jitter of 5, 5, 5 is 0, of
  1, 3 is 2, and of the single sample 1 is \<open>NaN\<close>.
\<close>

theorem jitter_mean_abs_difference:
  assumes "2 \<le> length xs" and "length ys < 2"
  shows "jitter xs =
           Num ((\<Sum>k<length xs - 1. \<bar>xs ! k - xs ! (k + 1)\<bar>) / real (length xs - 1)) \<and>
         jitter ys = NaN \<and>
         jitter [5, 5, 5] = Num 0 \<and> jitter [1, 3] = Num 2 \<and> jitter [1] = NaN"
proof -
  have "jitter xs =
          Num ((\<Sum>k<length xs - 1. \<bar>xs ! k - xs ! (k + 1)\<bar>) / real (length xs - 1))"
    using assms(1) by (simp add: jitter_eq js_div_def)
  moreover have "length ys - 1 = 0" using assms(2) by simp
  then have "jitter ys = NaN" by (simp add: jitter_eq js_div_def)
  moreover have "jitter [5, 5, 5] = Num 0 \<and> jitter [1, 3] = Num 2 \<and> jitter [1] = NaN"
    by (simp add: jitter_eq js_div_def lessThan_Suc numeral_2_eq_2 numeral_3_eq_3)
  ultimately show ?thesis by simp
qed

theorem jitter_mean_abs_difference_witness:
  "2 \<le> length [4, 1, 6 :: real] \<and> length ([] :: real list) < 2 \<and>
   jitter [4, 1, 6] = Num 4 \<and> jitter [] = NaN"
  using jitter_mean_abs_difference [of "[4, 1, 6]" "[]"]
  by (simp add: lessThan_Suc numeral_2_eq_2)

section \<open>Quantiles and the median\<close>

text \<open>
  C4. For a non-empty series and \<open>q\<close> between 0 and 1, \<open>quartile\<close> returns the linear
  quantile of the sorted values: with \<open>pos = (n - 1) * q\<close>, \<open>base = floor pos\<close> and
  \<open>frac = pos - base\<close>, the value at \<open>base\<close> when \<open>base\<close> is the last index, and
  otherwise that value plus \<open>frac\<close> times the step to the next one; \<open>base\<close> is always
  an index of the series. The 0.9-quantile of 10, 20, 30, 40, 50 is 46 and the
  0.5-quantile of 1, 2, 3, 4 is 5/2.
\<close>

theorem quartile_linear_interpolation:
  assumes "xs \<noteq> []" and "0 \<le> q" and "q \<le> 1"
  shows "snd (quartile xs q) =
           (let sorted_xs = sort xs;
                n = length xs;
                pos = (real n - 1) * q;
                base = \<lfloor>pos\<rfloor>;
                frac = pos - of_int base
            in if base = int n - 1 then Num (sorted_xs ! nat base)
               else Num (sorted_xs ! nat base +
                         frac * (sorted_xs ! nat (base + 1) - sorted_xs ! nat base))) \<and>
         0 \<le> \<lfloor>(real (length xs) - 1) * q\<rfloor> \<and>
         \<lfloor>(real (length xs) - 1) * q\<rfloor> \<le> int (length xs) - 1 \<and>
         snd (quartile [10, 20, 30, 40, 50] (9 / 10)) = Num 46 \<and>
         snd (quartile [1, 2, 3, 4] (1 / 2)) = Num (5 / 2)"
proof -
  have "snd (quartile [10, 20, 30, 40, 50] (9 / 10)) = Num 46"
    by (simp add: quartile_def quartile_run_def element_def Let_def)
  moreover have "snd (quartile [1, 2, 3, 4] (1 / 2)) = Num (5 / 2)"
    by (simp add: quartile_def quartile_run_def element_def Let_def)
  ultimately show ?thesis
    using quartile_result [OF assms] base_range [OF assms] by simp
qed

theorem quartile_linear_interpolation_witness:
  "[7, 3, 5 :: real] \<noteq> [] \<and> (0 :: real) \<le> 1 / 4 \<and> (1 / 4 :: real) \<le> 1 \<and>
   snd (quartile [7, 3, 5] (1 / 4)) = Num 4"
  using quartile_linear_interpolation [of "[7, 3, 5]" "1 / 4"]
  by (simp add: Let_def)

text \<open>
  C5, as stated, fails in its last part: at \<open>q = 1\<close> the function does read outside
  the array. Its test \<open>values[base + 1] !== undefined\<close> reads index 3 of a series of
  three samples.
\<close>

theorem quartile_top_reads_past_end:
  "quartile_reads [1, 2, 3] 1 = [3, 2] \<and>
   \<not> 3 < int (length [1, 2, 3 :: real]) \<and>
   element (sort [1, 2, 3]) 3 = None"
  by (simp add: quartile_reads_def quartile_run_def element_def Let_def)

text \<open>
  C5, amended. For a non-empty series \<open>quartile\<close> at 0 is the minimum and at 1 the
  maximum. At \<open>q = 1\<close> the function reads index \<open>base + 1 = n\<close>, which is outside the
  array and yields \<open>undefined\<close> without an error, and on that test it returns the value at
  index \<open>n - 1\<close>, the only other index it reads.
\<close>

theorem quartile_extremes:
  assumes "xs \<noteq> []"
  shows "snd (quartile xs 0) = Num (Min (set xs)) \<and>
         snd (quartile xs 1) = Num (Max (set xs)) \<and>
         quartile_reads xs 1 = [int (length xs), int (length xs) - 1] \<and>
         element (sort xs) (int (length xs)) = None \<and>
         element (sort xs) (int (length xs) - 1) = Some (Max (set xs))"
proof -
  have n: "1 \<le> length xs" using assms by (cases xs) simp_all
  have ne: "sort xs \<noteq> []" using assms by (metis length_0_conv length_sort)
  have "nat (int (length xs) - 1) = length xs - 1" by simp
  then have "element (sort xs) (int (length xs) - 1) = Some (Max (set xs))"
    using assms n sorted_last_Max [of "sort xs"] ne by (simp add: element_def)
  moreover have "element (sort xs) (int (length xs)) = None" by (simp add: element_def)
  ultimately show ?thesis
    using quartile_0 [OF assms] quartile_1_run [OF assms]
    by (simp add: quartile_def quartile_reads_def)
qed

theorem quartile_extremes_witness:
  "[4, 9, 2 :: real] \<noteq> [] \<and>
   snd (quartile [4, 9, 2] 0) = Num 2 \<and> snd (quartile [4, 9, 2] 1) = Num 9 \<and>
   quartile_reads [4, 9, 2] 1 = [3, 2] \<and> element (sort [4, 9, 2]) 3 = None"
  using quartile_extremes [of "[4, 9, 2]"] by simp

text \<open>
  C6. For a non-empty series \<open>median\<close> returns the middle element of the sorted values
  when the length is odd and the mean of the two middle elements when it is even. So the
  median of \<open>[a]\<close> is \<open>a\<close>, the median of \<open>[a, b]\<close> is \<open>(a + b) / 2\<close>, and two
  series with the same elements in any order have the same median.
\<close>

theorem median_middle_of_sorted:
  assumes "xs \<noteq> []" and "mset ys = mset xs"
  shows "snd (median xs) =
           (if odd (length xs) then Num (sort xs ! (length xs div 2))
            else Num ((sort xs ! (length xs div 2 - 1) + sort xs ! (length xs div 2)) / 2)) \<and>
         snd (median [a]) = Num a \<and>
         snd (median [a, b]) = Num ((a + b) / 2) \<and>
         snd (median ys) = snd (median xs)"
proof -
  have "snd (median [a]) = Num a"
    by (simp add: median_def element_def Let_def)
  moreover have "snd (median [a, b]) = Num ((a + b) / 2)"
    by (simp add: median_def element_def Let_def add.commute)
  ultimately show ?thesis
    using median_result [OF assms(1)] median_permutation [OF assms(2)] by simp
qed

theorem median_middle_of_sorted_witness:
  "[3, 1, 2 :: real] \<noteq> [] \<and> mset [2, 3, 1 :: real] = mset [3, 1, 2] \<and>
   snd (median [3, 1, 2]) = Num 2 \<and> snd (median [7]) = Num 7 \<and>
   snd (median [7, 10]) = Num (17 / 2) \<and> snd (median [2, 3, 1]) = Num 2"
  using median_middle_of_sorted [of "[3, 1, 2]" "[2, 3, 1]" 7 10]
  by (simp add: numeral_3_eq_3)

text \<open>
  C10. \<open>median\<close> and \<open>quartile\<close> sort their argument in place: the array the caller
  holds after either call is the ascending rearrangement of the array before the call.
\<close>

theorem median_quartile_sort_in_place:
  "fst (median values) = sort values \<and>
   sorted (fst (median values)) \<and> mset (fst (median values)) = mset values \<and>
   fst (quartile values percentile) = sort values \<and>
   sorted (fst (quartile values percentile)) \<and>
   mset (fst (quartile values percentile)) = mset values"
  by (simp add: median_array quartile_array)

section \<open>The download and upload drivers\<close>

text \<open>
  C8. Each fulfilled request of the upload loop contributes the sample
  \<open>measureSpeed(bytes, serverTiming)\<close>: the duration is the time the server reports
  (\<open>response[6]\<close>), and no timestamp of the client enters it. For a duration other than 0,
  \<open>measureSpeed(bytes, duration)\<close> is \<open>bytes * 8 / (duration / 1000) / 1e6\<close>.
\<close>

theorem upload_sample_formula:
  assumes "\<forall>i<iterations. settled (upload i)" and "duration \<noteq> 0"
  shows "measureUpload bytes iterations upload =
           Returned (map (\<lambda>r. measureSpeed bytes (serverTiming r))
                       (fulfilled (map upload [0..<iterations])),
                     map (\<lambda>e. ''Error: '' @ e) (rejected (map upload [0..<iterations]))) \<and>
         measureSpeed bytes (Num duration) = Num (bytes * 8 / (duration / 1000) / 1000000)"
proof -
  have "measureUpload bytes iterations upload =
           Returned (map (\<lambda>r. measureSpeed bytes (serverTiming r))
                       (fulfilled (map upload [0..<iterations])),
                     map (\<lambda>e. ''Error: '' @ e) (rejected (map upload [0..<iterations])))"
    unfolding measureUpload_def Let_def
    using driver_result [OF assms(1), of "\<lambda>r. measureSpeed bytes (serverTiming r)"] .
  moreover have "measureSpeed bytes (Num duration) =
      Num (bytes * 8 / (duration / 1000) / 1000000)"
    using assms(2) by (rule measureSpeed_formula)
  ultimately show ?thesis by (rule conjI)
qed

theorem upload_sample_formula_witness:
  "measureUpload 11000 2 (\<lambda>i. Fulfilled sample_response) = Returned ([Num 44, Num 44], []) \<and>
   measureSpeed 11000 (Num 2) = Num 44"
proof -
  have two: "[0..<2] = [0, 1]" by (simp add: upt_rec)
  have speed: "measureSpeed 11000 (serverTiming sample_response) = Num 44"
    by (simp add: measureSpeed_def js_div_def sample_response_def)
  have all: "\<forall>i<2. settled ((\<lambda>i. Fulfilled sample_response) i)" by (simp add: settled_def)
  show ?thesis
    using upload_sample_formula [OF all, of 2 11000]
    by (simp add: two speed)
qed

text \<open>
  Rejected requests are logged and skipped: when each request of a driver is fulfilled or
  rejected, the driver returns one sample for each fulfilled request, in order, and one
  \<open>Error:\<close> line for each rejected one, so that samples and lines together are as many
  as the iterations.
\<close>

lemma rejected_requests_are_skipped:
  assumes "\<forall>i<iterations. settled (requests i)"
  shows "measureDownload bytes iterations requests =
           Returned (map (\<lambda>r. measureSpeed bytes (Num (ended r - ttfb r)))
                       (fulfilled (map requests [0..<iterations])),
                     map (\<lambda>e. ''Error: '' @ e) (rejected (map requests [0..<iterations]))) \<and>
         measureUpload bytes iterations requests =
           Returned (map (\<lambda>r. measureSpeed bytes (serverTiming r))
                       (fulfilled (map requests [0..<iterations])),
                     map (\<lambda>e. ''Error: '' @ e) (rejected (map requests [0..<iterations]))) \<and>
         length (fulfilled (map requests [0..<iterations])) +
           length (rejected (map requests [0..<iterations])) = iterations"
proof -
  have "\<forall>p\<in>set (map requests [0..<iterations]). settled p"
    using assms by auto
  then have count: "length (fulfilled (map requests [0..<iterations])) +
      length (rejected (map requests [0..<iterations])) = iterations"
    using settled_count [of "map requests [0..<iterations]"] by simp
  have "measureDownload bytes iterations requests =
           Returned (map (\<lambda>r. measureSpeed bytes (Num (ended r - ttfb r)))
                       (fulfilled (map requests [0..<iterations])),
                     map (\<lambda>e. ''Error: '' @ e) (rejected (map requests [0..<iterations])))"
    unfolding measureDownload_def Let_def
    using driver_result [OF assms, of "\<lambda>r. measureSpeed bytes (Num (ended r - ttfb r))"] .
  moreover have "measureUpload bytes iterations requests =
           Returned (map (\<lambda>r. measureSpeed bytes (serverTiming r))
                       (fulfilled (map requests [0..<iterations])),
                     map (\<lambda>e. ''Error: '' @ e) (rejected (map requests [0..<iterations])))"
    unfolding measureUpload_def Let_def
    using driver_result [OF assms, of "\<lambda>r. measureSpeed bytes (serverTiming r)"] .
  ultimately show ?thesis using count by simp
qed

text \<open>
  C9 (the code departs from the claim). Not every failed request is logged and skipped. A
  response without a \<open>server-timing\<close> header makes the \<open>end\<close> listener of \<open>request\<close>
  throw; \<open>get\<close> wraps the body of its \<open>end\<close> listener in \<open>try\<close> and rejects,
  \<open>request\<close> does not. The promise is never rejected, so no \<open>Error:\<close> line is printed,
  the process dies of the uncaught exception, and the iterations that remain are not run:
  of ten requests of which the third has no header, none of the drivers returns a series.
  A header that does not parse is no failure at all for the drivers: the request is
  fulfilled and the upload driver pushes the sample \<open>NaN\<close>.
\<close>

theorem missing_header_ends_the_run:
  "request (Ends sample_times None) =
     Thrown (TypeError ''Cannot read properties of undefined (reading slice)'') \<and>
   measureDownload 101000 10 (\<lambda>i. request (headerless i)) =
     Died (TypeError ''Cannot read properties of undefined (reading slice)'') [] \<and>
   measureUpload 11000 10 (\<lambda>i. request (headerless i)) =
     Died (TypeError ''Cannot read properties of undefined (reading slice)'') [] \<and>
   latency_measurements (\<lambda>i. request (headerless i)) =
     Died (TypeError ''Cannot read properties of undefined (reading slice)'') [] \<and>
   measureUpload 11000 10 (\<lambda>i. request (garbled i)) =
     Returned ([Num 44, Num 44, NaN, Num 44, Num 44, Num 44, Num 44, Num 44, Num 44, Num 44],
               [])"
proof -
  let ?x = "TypeError ''Cannot read properties of undefined (reading slice)''"
  let ?net = "\<lambda>i. request (headerless i)"
  have thrown: "?net 2 = Thrown ?x" by (simp add: request_def headerless_def)
  have before: "\<And>j. 0 \<le> j \<Longrightarrow> j < 2 \<Longrightarrow> settled (?net j)"
    by (simp add: request_def headerless_def settled_def)
  have none: "rejected (map ?net [0..<2]) = []"
    by (simp add: upt_rec request_def headerless_def)
  have dies: "\<And>n sample. 2 < n \<Longrightarrow>
      await_loop n ?net sample 0 [] ([] :: string list) = Died ?x []"
    using await_loop_thrown [of 0 2 _ ?net ?x _ "[]" "[]", OF _ _ thrown before] none by simp
  have ten: "[0..<10] = [0, 1, 2, 3, 4, 5, 6, 7, 8, 9]" by (simp add: upt_rec)
  let ?bad = "\<lambda>i. request (garbled i)"
  have all: "\<forall>i<10. settled (?bad i)"
    by (simp add: request_def garbled_def settled_def)
  have speed: "measureSpeed 11000 (Num 2) = Num 44" by (simp add: measureSpeed_def js_div_def)
  have "measureUpload 11000 10 ?bad =
     Returned ([Num 44, Num 44, NaN, Num 44, Num 44, Num 44, Num 44, Num 44, Num 44, Num 44],
               [])"
    unfolding measureUpload_def Let_def
    using driver_result [OF all, of "\<lambda>r. measureSpeed 11000 (serverTiming r)"]
    by (simp add: ten request_def garbled_def speed measureSpeed_NaN)
  moreover have "request (Ends sample_times None) = Thrown ?x" by (simp add: request_def)
  ultimately show ?thesis
    by (simp add: measureDownload_def measureUpload_def latency_measurements_def Let_def dies)
qed


end
